theory Spec2Isabelle
  imports Main
begin

section \<open>The \<open>default_views\<close> table\<close>

text \<open>
  A row of the table created by the migration \<open>add_default_views\<close>: \<open>id\<close> (here
  \<open>rowId\<close>, since \<open>id\<close> is the identity function of HOL), \<open>project_id\<close>, the nullable
  \<open>user_id\<close>, \<open>view_name\<close> and \<open>view_id\<close>. SQL \<open>NULL\<close> in \<open>user_id\<close> is \<open>None\<close>.
  The two timestamp columns are left out: no operation of the service reads them.
\<close>

record DefaultView =
  rowId :: string
  projectId :: string
  userId :: "string option"
  viewName :: string
  viewId :: string

text \<open>The table is the list of its rows, in the order the store returns them.\<close>

type_synonym table = "DefaultView list"

text \<open>\<open>DefaultViewScope\<close> of \<open>./types\<close>: the literals \<open>"user"\<close> and \<open>"project"\<close>.\<close>

datatype DefaultViewScope = ScopeUser | ScopeProject

text \<open>\<open>ResolvedDefault\<close>: the object \<open>{ viewId, scope }\<close> returned by the resolver.\<close>

record ResolvedDefault =
  resolvedViewId :: string
  scope :: DefaultViewScope

text \<open>\<open>IsDefaultResult\<close>: the object returned by \<open>isViewDefault\<close>.\<close>

record IsDefaultResult =
  isUserDefault :: bool
  isProjectDefault :: bool
  affectedCount :: nat

text \<open>
  What an operation can throw: the plain \<open>Error\<close> of the service with its message, and
  the errors of the store: a violated unique constraint (P2002, with the name of the
  index), a violated foreign key (P2003, with the name of the constraint), a record to
  update that does not exist (P2025), and the refusal of a text value that contains the
  character U+0000, which the store cannot hold.
\<close>

datatype error = Error string | P2002 string | P2003 string | P2025 | InvalidByteSequence

text \<open>
  The foreign keys \<open>default_views_project_id_fkey\<close> and \<open>default_views_user_id_fkey\<close>
  point into the tables \<open>projects\<close> and \<open>users\<close>. Of those tables only the ids they hold
  matter here; no operation of the service changes them.
\<close>

record related_tables =
  projects :: "string list"
  users :: "string list"

definition fk_ok :: "related_tables \<Rightarrow> DefaultView \<Rightarrow> bool" where
  "fk_ok db r =
     (projectId r \<in> set (projects db)
      \<and> (case userId r of None \<Rightarrow> True | Some x \<Rightarrow> x \<in> set (users db)))"

text \<open>A text value the store accepts: one without the character U+0000.\<close>

definition text_ok :: "string \<Rightarrow> bool" where
  "text_ok x = (CHR 0x00 \<notin> set x)"

definition row_text_ok :: "DefaultView \<Rightarrow> bool" where
  "row_text_ok r =
     (text_ok (rowId r) \<and> text_ok (projectId r)
      \<and> (case userId r of None \<Rightarrow> True | Some x \<Rightarrow> text_ok x)
      \<and> text_ok (viewName r) \<and> text_ok (viewId r))"

text \<open>
  The columns of the unique index \<open>default_views_project_id_user_id_view_name_key\<close>.
  The index is \<open>NULLS NOT DISTINCT\<close>: two \<open>NULL\<close> user ids are equal, as two \<open>None\<close> are.
\<close>

definition key_of :: "DefaultView \<Rightarrow> string \<times> string option \<times> string" where
  "key_of r = (projectId r, userId r, viewName r)"

definition uniq_key :: "table \<Rightarrow> bool" where
  "uniq_key s = distinct (map key_of s)"

text \<open>The primary key \<open>default_views_pkey\<close>.\<close>

definition uniq_id :: "table \<Rightarrow> bool" where
  "uniq_id s = distinct (map rowId s)"

section \<open>The store's operations\<close>

text \<open>
  \<open>findMany\<close>, \<open>findFirst\<close> and \<open>deleteMany\<close> take the \<open>where\<close> clause as a predicate
  on rows. A write returns what it throws (or nothing) and the table afterwards; a
  write that throws leaves the table as it was.
\<close>

definition findMany :: "(DefaultView \<Rightarrow> bool) \<Rightarrow> table \<Rightarrow> DefaultView list" where
  "findMany w s = filter w s"

definition findFirst :: "(DefaultView \<Rightarrow> bool) \<Rightarrow> table \<Rightarrow> DefaultView option" where
  "findFirst w s = find w s"

definition deleteMany :: "(DefaultView \<Rightarrow> bool) \<Rightarrow> table \<Rightarrow> (error + unit) \<times> table" where
  "deleteMany w s = (Inr (), filter (\<lambda>r. \<not> w r) s)"

text \<open>\<open>update({ where: { id }, data: { viewId } })\<close>.\<close>

definition update :: "string \<Rightarrow> string \<Rightarrow> table \<Rightarrow> (error + unit) \<times> table" where
  "update i v s =
     (if i \<in> set (map rowId s)
      then (Inr (), map (\<lambda>r. if rowId r = i then r\<lparr>viewId := v\<rparr> else r) s)
      else (Inl P2025, s))"

text \<open>
  \<open>create({ data })\<close>: the new row carries the id the client generated for it. The
  insert is refused when a text value of the row contains U+0000, when the primary key
  or the unique index would be violated, and when the project or the user the row
  refers to does not exist (the foreign keys are checked after the indexes).
\<close>

definition create ::
  "related_tables \<Rightarrow> DefaultView \<Rightarrow> table \<Rightarrow> (error + unit) \<times> table" where
  "create db row s =
     (if \<not> row_text_ok row then (Inl InvalidByteSequence, s)
      else if rowId row \<in> set (map rowId s) then (Inl (P2002 ''default_views_pkey''), s)
      else if key_of row \<in> set (map key_of s)
      then (Inl (P2002 ''default_views_project_id_user_id_view_name_key''), s)
      else if projectId row \<notin> set (projects db)
      then (Inl (P2003 ''default_views_project_id_fkey''), s)
      else if (case userId row of None \<Rightarrow> False | Some x \<Rightarrow> x \<notin> set (users db))
      then (Inl (P2003 ''default_views_user_id_fkey''), s)
      else (Inr (), s @ [row]))"

section \<open>DefaultViewService\<close>

text \<open>
  The parameter \<open>userId?: string\<close> is \<open>None\<close> when it is not passed and \<open>Some u\<close>
  otherwise. \<open>truthy\<close> is the test \<open>if (userId)\<close> of JavaScript: a string is falsy
  when it is undefined or empty.
\<close>

definition truthy :: "string option \<Rightarrow> bool" where
  "truthy u = (case u of None \<Rightarrow> False | Some x \<Rightarrow> x \<noteq> [])"

text \<open>The \<open>where\<close> clause \<open>{ projectId, viewName, userId }\<close>.\<close>

definition where_key :: "string \<Rightarrow> string \<Rightarrow> string option \<Rightarrow> DefaultView \<Rightarrow> bool" where
  "where_key p n u r = (projectId r = p \<and> viewName r = n \<and> userId r = u)"

text \<open>
  The \<open>where\<close> clause of the resolver:
  \<open>{ projectId, viewName, OR: [{ userId: userId ?? null }, { userId: null }] }\<close>.
\<close>

definition where_resolve :: "string \<Rightarrow> string \<Rightarrow> string option \<Rightarrow> DefaultView \<Rightarrow> bool" where
  "where_resolve p n u r =
     (projectId r = p \<and> viewName r = n \<and> (userId r = u \<or> userId r = None))"

definition getResolvedDefault ::
  "string \<Rightarrow> string \<Rightarrow> string option \<Rightarrow> table \<Rightarrow> ResolvedDefault option \<times> table" where
  "getResolvedDefault p n u s =
     (let defaults = findMany (where_resolve p n u) s;
          userDefault = (if truthy u then find (\<lambda>d. userId d = u) defaults else None)
      in case userDefault of
           Some d \<Rightarrow> (Some \<lparr>resolvedViewId = viewId d, scope = ScopeUser\<rparr>, s)
         | None \<Rightarrow>
             (case find (\<lambda>d. userId d = None) defaults of
                Some d \<Rightarrow> (Some \<lparr>resolvedViewId = viewId d, scope = ScopeProject\<rparr>, s)
              | None \<Rightarrow> (None, s)))"

text \<open>\<open>const userIdToUse = scope === "user" ? userId : null\<close>.\<close>

definition userIdToUse :: "DefaultViewScope \<Rightarrow> string option \<Rightarrow> string option" where
  "userIdToUse sc u = (if sc = ScopeUser then u else None)"

text \<open>
  \<open>setAsDefault\<close>: the first argument holds the ids of the tables the foreign keys
  point into, the second is the id the store's client generates for the row in case the
  row is created; the others are \<open>projectId\<close>, \<open>viewId\<close>, \<open>viewName\<close>, \<open>scope\<close> and
  \<open>userId\<close>.
\<close>

definition setAsDefault ::
  "related_tables \<Rightarrow> string \<Rightarrow> string \<Rightarrow> string \<Rightarrow> string \<Rightarrow> DefaultViewScope \<Rightarrow> string option \<Rightarrow> table
     \<Rightarrow> (error + unit) \<times> table" where
  "setAsDefault db newId p v n sc u s =
     (let eff = userIdToUse sc u in
      if sc = ScopeUser \<and> \<not> truthy u
      then (Inl (Error ''userId is required for user-level defaults''), s)
      else (case findFirst (where_key p n eff) s of
              Some existing \<Rightarrow> update (rowId existing) v s
            | None \<Rightarrow>
                create db \<lparr>rowId = newId, projectId = p, userId = eff,
                        viewName = n, viewId = v\<rparr> s))"

definition clearDefault ::
  "string \<Rightarrow> string \<Rightarrow> DefaultViewScope \<Rightarrow> string option \<Rightarrow> table
     \<Rightarrow> (error + unit) \<times> table" where
  "clearDefault p n sc u s =
     (let eff = userIdToUse sc u in
      if sc = ScopeUser \<and> \<not> truthy u
      then (Inl (Error ''userId is required for clearing user-level defaults''), s)
      else deleteMany (where_key p n eff) s)"

definition isViewDefault :: "string \<Rightarrow> table \<Rightarrow> IsDefaultResult \<times> table" where
  "isViewDefault v s =
     (let defaults = findMany (\<lambda>r. viewId r = v) s
      in (\<lparr>isUserDefault = list_ex (\<lambda>d. userId d \<noteq> None) defaults,
           isProjectDefault = list_ex (\<lambda>d. userId d = None) defaults,
           affectedCount = length defaults\<rparr>, s))"

definition cleanupOrphanedDefaults :: "string \<Rightarrow> table \<Rightarrow> (error + unit) \<times> table" where
  "cleanupOrphanedDefaults v s = deleteMany (\<lambda>r. viewId r = v) s"

section \<open>Sequences of operations and what a caller can see\<close>

text \<open>
  The five operations of the service with their arguments. \<open>apply_operation\<close> is the
  table after one operation has run (the table is as before when the operation throws),
  \<open>run\<close> the table after a sequence of them; both take the ids of the tables the
  foreign keys point into.
\<close>

datatype operation =
    GetResolvedDefault string string "string option"
  | SetAsDefault string string string string DefaultViewScope "string option"
  | ClearDefault string string DefaultViewScope "string option"
  | IsViewDefault string
  | CleanupOrphanedDefaults string

fun apply_operation :: "related_tables \<Rightarrow> operation \<Rightarrow> table \<Rightarrow> table" where
  "apply_operation db (GetResolvedDefault p n u) s = snd (getResolvedDefault p n u s)"
| "apply_operation db (SetAsDefault newId p v n sc u) s = snd (setAsDefault db newId p v n sc u s)"
| "apply_operation db (ClearDefault p n sc u) s = snd (clearDefault p n sc u s)"
| "apply_operation db (IsViewDefault v) s = snd (isViewDefault v s)"
| "apply_operation db (CleanupOrphanedDefaults v) s = snd (cleanupOrphanedDefaults v s)"

fun run :: "related_tables \<Rightarrow> operation list \<Rightarrow> table \<Rightarrow> table" where
  "run db [] s = s"
| "run db (x # xs) s = run db xs (apply_operation db x s)"

text \<open>
  The rows a caller with user id \<open>u\<close> may be served from: the project-scoped rows and
  the caller's own. Two tables with the same visible rows differ only in rows of other
  users.
\<close>

definition visible_to :: "string option \<Rightarrow> table \<Rightarrow> DefaultView list" where
  "visible_to u s = filter (\<lambda>r. userId r = None \<or> userId r = u) s"

section \<open>Facts about lists and keys\<close>

lemma find_filter: "find P (filter Q xs) = find (\<lambda>x. Q x \<and> P x) xs"
  by (induction xs) auto

lemma find_None_iff_set: "(find P xs = None) = (\<forall>x\<in>set xs. \<not> P x)"
  by (induction xs) auto

lemma find_Some_mem: "find P xs = Some x \<Longrightarrow> x \<in> set xs \<and> P x"
  by (induction xs) (auto split: if_splits)

lemma filter_single_find: "filter P xs = [x] \<Longrightarrow> find P xs = Some x"
  by (induction xs) (auto split: if_splits)

lemma where_key_iff: "where_key p n u r = (key_of r = (p, u, n))"
  by (auto simp: where_key_def key_of_def)

lemma resolve_user_conj:
  "(where_resolve p n u d \<and> userId d = u) = where_key p n u d"
  by (auto simp: where_resolve_def where_key_def)

lemma resolve_project_conj:
  "(where_resolve p n u d \<and> userId d = None) = where_key p n None d"
  by (auto simp: where_resolve_def where_key_def)

text \<open>Under the unique index a row with a given key is the row a lookup by key finds.\<close>

lemma find_uniq_key:
  "uniq_key s \<Longrightarrow> r \<in> set s \<Longrightarrow> where_key p n u r \<Longrightarrow> find (where_key p n u) s = Some r"
proof (induction s)
  case Nil
  then show ?case by simp
next
  case (Cons a s)
  show ?case
  proof (cases "where_key p n u a")
    case True
    have "a = r"
    proof (rule ccontr)
      assume "a \<noteq> r"
      with Cons.prems have "r \<in> set s" by auto
      then have "key_of r \<in> set (map key_of s)" by simp
      moreover have "key_of a = key_of r"
        using True Cons.prems(3) by (simp add: where_key_iff)
      ultimately show False using Cons.prems(1) by (simp add: uniq_key_def)
    qed
    with True show ?thesis by simp
  next
    case False
    with Cons show ?thesis by (auto simp: uniq_key_def)
  qed
qed

lemma find_Some_filter_uniq:
  "uniq_key s \<Longrightarrow> find (where_key p n e) s = Some x \<Longrightarrow> filter (where_key p n e) s = [x]"
proof (induction s)
  case Nil
  then show ?case by simp
next
  case (Cons a s)
  show ?case
  proof (cases "where_key p n e a")
    case True
    with Cons.prems have ax: "a = x" by simp
    from True have "key_of a = (p, e, n)" by (simp add: where_key_iff)
    with Cons.prems(1) have "(p, e, n) \<notin> key_of ` set s" by (simp add: uniq_key_def)
    then have "\<forall>r\<in>set s. \<not> where_key p n e r"
      unfolding where_key_iff by (metis image_eqI)
    then have "filter (where_key p n e) s = []" by (simp add: filter_empty_conv)
    with True ax show ?thesis by simp
  next
    case False
    with Cons show ?thesis by (simp add: uniq_key_def)
  qed
qed

lemma length_filter_uniq_key:
  "uniq_key s \<Longrightarrow> length (filter (\<lambda>r. key_of r = k) s) \<le> 1"
proof (induction s)
  case Nil
  then show ?case by simp
next
  case (Cons a s)
  then have ih: "length (filter (\<lambda>r. key_of r = k) s) \<le> 1"
    by (simp add: uniq_key_def)
  show ?case
  proof (cases "key_of a = k")
    case True
    with Cons.prems have "k \<notin> key_of ` set s"
      by (simp add: uniq_key_def)
    then have "\<forall>r\<in>set s. key_of r \<noteq> k"
      by blast
    then have "filter (\<lambda>r. key_of r = k) s = []"
      by (simp add: filter_empty_conv)
    with True show ?thesis by simp
  next
    case False
    with ih show ?thesis by simp
  qed
qed

text \<open>Overwriting \<open>viewId\<close> changes no column of the key.\<close>

lemma map_key_of_update:
  "map key_of (map (\<lambda>r. if rowId r = i then r\<lparr>viewId := v\<rparr> else r) s) = map key_of s"
  by (induction s) (simp_all add: key_of_def)

lemma filter_where_key_update:
  "filter (where_key p n e) (map (\<lambda>r. if rowId r = i then r\<lparr>viewId := v\<rparr> else r) s)
     = map (\<lambda>r. if rowId r = i then r\<lparr>viewId := v\<rparr> else r) (filter (where_key p n e) s)"
  by (induction s) (simp_all add: where_key_def)

section \<open>The resolver as a lookup by key\<close>

lemma getResolvedDefault_find:
  "getResolvedDefault p n u s =
     (case (if truthy u then find (where_key p n u) s else None) of
        Some d \<Rightarrow> (Some \<lparr>resolvedViewId = viewId d, scope = ScopeUser\<rparr>, s)
      | None \<Rightarrow>
          (case find (where_key p n None) s of
             Some d \<Rightarrow> (Some \<lparr>resolvedViewId = viewId d, scope = ScopeProject\<rparr>, s)
           | None \<Rightarrow> (None, s)))"
proof -
  have a: "find (\<lambda>d. userId d = u) (filter (where_resolve p n u) s) = find (where_key p n u) s"
    by (simp add: find_filter resolve_user_conj)
  have b: "find (\<lambda>d. userId d = None) (filter (where_resolve p n u) s)
             = find (where_key p n None) s"
    by (simp add: find_filter resolve_project_conj)
  show ?thesis
    unfolding getResolvedDefault_def findMany_def Let_def a b by simp
qed

lemma getResolvedDefault_visible:
  "fst (getResolvedDefault p n u s) = fst (getResolvedDefault p n u (visible_to u s))"
proof -
  have "filter (where_resolve p n u) (visible_to u s) = filter (where_resolve p n u) s"
    by (auto simp: visible_to_def where_resolve_def intro: filter_cong)
  then show ?thesis
    by (simp add: getResolvedDefault_def findMany_def Let_def split: option.splits)
qed

lemma getResolvedDefault_source:
  assumes "fst (getResolvedDefault p n u s) = Some res"
  shows "\<exists>r\<in>set s. projectId r = p \<and> viewName r = n \<and> viewId r = resolvedViewId res
            \<and> ((scope res = ScopeUser \<and> truthy u \<and> userId r = u)
               \<or> (scope res = ScopeProject \<and> userId r = None))"
  using assms
  by (auto simp: getResolvedDefault_find where_key_def split: option.splits if_splits
      dest!: find_Some_iff[THEN iffD1] intro!: nth_mem)

section \<open>The upsert of \<open>setAsDefault\<close>\<close>

lemma setAsDefault_existing:
  assumes "sc = ScopeUser \<longrightarrow> truthy u"
    and "find (where_key p n (userIdToUse sc u)) s = Some e"
  shows "setAsDefault db i p v n sc u s
           = (Inr (), map (\<lambda>r. if rowId r = rowId e then r\<lparr>viewId := v\<rparr> else r) s)"
proof -
  from find_Some_mem [OF assms(2)] have "rowId e \<in> set (map rowId s)" by simp
  with assms show ?thesis
    by (simp add: setAsDefault_def findFirst_def update_def Let_def)
qed

lemma setAsDefault_new:
  assumes "sc = ScopeUser \<longrightarrow> truthy u"
    and "find (where_key p n (userIdToUse sc u)) s = None"
    and "i \<notin> set (map rowId s)"
    and "row_text_ok \<lparr>rowId = i, projectId = p, userId = userIdToUse sc u,
                       viewName = n, viewId = v\<rparr>"
    and "fk_ok db \<lparr>rowId = i, projectId = p, userId = userIdToUse sc u,
                    viewName = n, viewId = v\<rparr>"
  shows "setAsDefault db i p v n sc u s
           = (Inr (), s @ [\<lparr>rowId = i, projectId = p, userId = userIdToUse sc u,
                             viewName = n, viewId = v\<rparr>])"
proof -
  let ?row = "\<lparr>rowId = i, projectId = p, userId = userIdToUse sc u, viewName = n, viewId = v\<rparr>"
  from assms(2) have "\<forall>r\<in>set s. key_of r \<noteq> (p, userIdToUse sc u, n)"
    by (simp add: find_None_iff_set where_key_iff)
  then have "(p, userIdToUse sc u, n) \<notin> set (map key_of s)" by auto
  then have k: "key_of ?row \<notin> set (map key_of s)" by (simp add: key_of_def)
  from assms(5) have fk: "projectId ?row \<in> set (projects db)"
    and fu: "\<not> (case userId ?row of None \<Rightarrow> False | Some x \<Rightarrow> x \<notin> set (users db))"
    by (auto simp: fk_ok_def split: option.splits)
  from assms(3) have fi: "rowId ?row \<notin> set (map rowId s)" by simp
  have "create db ?row s = (Inr (), s @ [?row])"
    using assms(4) fi k fk fu by (simp add: create_def)
  with assms(1,2) show ?thesis
    by (simp add: setAsDefault_def findFirst_def Let_def)
qed

text \<open>
  After a first successful call there is one row for the key, it holds the view id, and
  every row that shares its id holds the view id too.
\<close>

lemma setAsDefault_first:
  assumes u: "uniq_key s" and ok: "sc = ScopeUser \<longrightarrow> truthy u"
    and fresh: "i \<notin> set (map rowId s)"
    and tok: "row_text_ok \<lparr>rowId = i, projectId = p, userId = userIdToUse sc u,
                            viewName = n, viewId = v\<rparr>"
    and fk: "fk_ok db \<lparr>rowId = i, projectId = p, userId = userIdToUse sc u,
                        viewName = n, viewId = v\<rparr>"
  shows "\<exists>s1 row. setAsDefault db i p v n sc u s = (Inr (), s1)
           \<and> uniq_key s1
           \<and> filter (where_key p n (userIdToUse sc u)) s1 = [row] \<and> viewId row = v
           \<and> (\<forall>r\<in>set s1. rowId r = rowId row \<longrightarrow> viewId r = v)"
proof (cases "find (where_key p n (userIdToUse sc u)) s")
  case None
  let ?row = "\<lparr>rowId = i, projectId = p, userId = userIdToUse sc u, viewName = n, viewId = v\<rparr>"
  have eq: "setAsDefault db i p v n sc u s = (Inr (), s @ [?row])"
    by (rule setAsDefault_new [OF ok None fresh tok fk])
  from None have no: "\<forall>r\<in>set s. \<not> where_key p n (userIdToUse sc u) r"
    by (simp add: find_None_iff_set)
  then have f0: "filter (where_key p n (userIdToUse sc u)) s = []"
    by (simp add: filter_empty_conv)
  have f1: "filter (where_key p n (userIdToUse sc u)) (s @ [?row]) = [?row]"
    using f0 by (simp add: where_key_def)
  from no have "key_of ?row \<notin> key_of ` set s"
    by (auto simp: where_key_iff key_of_def)
  with u have u1: "uniq_key (s @ [?row])" by (simp add: uniq_key_def)
  have r1: "\<forall>r\<in>set (s @ [?row]). rowId r = rowId ?row \<longrightarrow> viewId r = v"
    using fresh by auto
  have v1: "viewId ?row = v" by simp
  show ?thesis
    by (intro exI conjI) (rule eq u1 f1 v1 r1)+
next
  case (Some e)
  let ?f = "\<lambda>r. if rowId r = rowId e then r\<lparr>viewId := v\<rparr> else r"
  have eq: "setAsDefault db i p v n sc u s = (Inr (), map ?f s)"
    by (rule setAsDefault_existing [OF ok Some])
  have u1: "uniq_key (map ?f s)"
    using u by (simp only: uniq_key_def map_key_of_update)
  have f1: "filter (where_key p n (userIdToUse sc u)) (map ?f s) = [e\<lparr>viewId := v\<rparr>]"
    using find_Some_filter_uniq [OF u Some] by (simp add: filter_where_key_update)
  have r1: "\<forall>r\<in>set (map ?f s). rowId r = rowId (e\<lparr>viewId := v\<rparr>) \<longrightarrow> viewId r = v"
    by auto
  have v1: "viewId (e\<lparr>viewId := v\<rparr>) = v" by simp
  show ?thesis
    by (intro exI conjI) (rule eq u1 f1 v1 r1)+
qed

lemma setAsDefault_again:
  assumes u: "uniq_key s" and ok: "sc = ScopeUser \<longrightarrow> truthy u"
    and one: "filter (where_key p n (userIdToUse sc u)) s = [row]"
  shows "setAsDefault db i p v n sc u s
           = (Inr (), map (\<lambda>r. if rowId r = rowId row then r\<lparr>viewId := v\<rparr> else r) s)
         \<and> filter (where_key p n (userIdToUse sc u))
             (map (\<lambda>r. if rowId r = rowId row then r\<lparr>viewId := v\<rparr> else r) s)
             = [row\<lparr>viewId := v\<rparr>]"
proof -
  have "find (where_key p n (userIdToUse sc u)) s = Some row"
    by (rule filter_single_find [OF one])
  from setAsDefault_existing [OF ok this] one show ?thesis
    by (simp add: filter_where_key_update)
qed

lemma setAsDefault_target:
  assumes ok: "fst (setAsDefault db i p v n sc u s) = Inr ()"
  shows "(\<exists>row\<in>set (snd (setAsDefault db i p v n sc u s)).
            key_of row = (p, userIdToUse sc u, n) \<and> viewId row = v)
         \<and> (map key_of (snd (setAsDefault db i p v n sc u s)) = map key_of s
            \<or> map key_of (snd (setAsDefault db i p v n sc u s))
                = map key_of s @ [(p, userIdToUse sc u, n)])"
proof -
  from ok have valid: "sc = ScopeUser \<longrightarrow> truthy u"
    by (auto simp: setAsDefault_def Let_def split: if_splits)
  show ?thesis
  proof (cases "find (where_key p n (userIdToUse sc u)) s")
    case None
    let ?row = "\<lparr>rowId = i, projectId = p, userId = userIdToUse sc u, viewName = n, viewId = v\<rparr>"
    from ok valid None have "snd (setAsDefault db i p v n sc u s) = s @ [?row]"
      by (auto simp: setAsDefault_def findFirst_def create_def Let_def split: if_splits)
    then show ?thesis by (simp add: key_of_def)
  next
    case (Some e)
    let ?f = "\<lambda>r. if rowId r = rowId e then r\<lparr>viewId := v\<rparr> else r"
    have eq: "snd (setAsDefault db i p v n sc u s) = map ?f s"
      using setAsDefault_existing [OF valid Some, where db = db and i = i and v = v] by simp
    from find_Some_mem [OF Some] have mem: "e \<in> set s" and k: "where_key p n (userIdToUse sc u) e"
      by simp_all
    from mem have "?f e \<in> set (map ?f s)" by (rule imageI [of e "set s" ?f, folded set_map])
    moreover have "key_of (?f e) = (p, userIdToUse sc u, n)"
      using k by (simp add: where_key_iff key_of_def)
    moreover have "viewId (?f e) = v" by simp
    ultimately have "\<exists>row\<in>set (map ?f s). key_of row = (p, userIdToUse sc u, n) \<and> viewId row = v"
      by blast
    with eq show ?thesis by (simp only: map_key_of_update) simp
  qed
qed

text \<open>
  The insert of \<open>setAsDefault\<close> runs only after the lookup by the same key found no row,
  so the unique index is never what refuses it.
\<close>

lemma setAsDefault_index_never_violated:
  "fst (setAsDefault db i p v n sc u s)
     \<noteq> Inl (P2002 ''default_views_project_id_user_id_view_name_key'')"
proof (cases "find (where_key p n (userIdToUse sc u)) s")
  case None
  then have "\<forall>r\<in>set s. key_of r \<noteq> (p, userIdToUse sc u, n)"
    by (simp add: find_None_iff_set where_key_iff)
  then have "(p, userIdToUse sc u, n) \<notin> set (map key_of s)" by auto
  with None show ?thesis
    by (simp add: setAsDefault_def findFirst_def create_def Let_def key_of_def)
next
  case (Some e)
  then show ?thesis
    by (simp add: setAsDefault_def findFirst_def update_def Let_def)
qed

text \<open>
  What the store refuses, the upsert refuses, and the table stays as it was: a project
  that does not exist, a user that does not exist, and a view id that contains U+0000.
\<close>

lemma setAsDefault_refused_by_store:
  "setAsDefault \<lparr>projects = [''P''], users = [''U1'']\<rparr>
       ''1'' ''NOPE'' ''A'' ''traces'' ScopeProject None []
     = (Inl (P2003 ''default_views_project_id_fkey''), [])
   \<and> setAsDefault \<lparr>projects = [''P''], users = [''U1'']\<rparr>
       ''1'' ''P'' ''A'' ''traces'' ScopeUser (Some ''U2'') []
     = (Inl (P2003 ''default_views_user_id_fkey''), [])
   \<and> setAsDefault \<lparr>projects = [''P''], users = [''U1'']\<rparr>
       ''1'' ''P'' (''A'' @ [CHR 0x00]) ''traces'' ScopeProject None []
     = (Inl InvalidByteSequence, [])"
  by (simp add: setAsDefault_def userIdToUse_def truthy_def findFirst_def create_def
      row_text_ok_def text_ok_def key_of_def)

section \<open>Every operation keeps the unique index\<close>

lemma uniq_key_update: "uniq_key s \<Longrightarrow> uniq_key (snd (update i v s))"
proof (cases "i \<in> set (map rowId s)")
  case True
  assume "uniq_key s"
  then have "uniq_key (map (\<lambda>r. if rowId r = i then r\<lparr>viewId := v\<rparr> else r) s)"
    by (simp only: uniq_key_def map_key_of_update)
  with True show ?thesis by (simp add: update_def)
next
  case False
  assume "uniq_key s"
  with False show ?thesis by (simp add: update_def)
qed

lemma uniq_key_create: "uniq_key s \<Longrightarrow> uniq_key (snd (create db row s))"
  by (simp add: create_def uniq_key_def)

lemma uniq_key_deleteMany: "uniq_key s \<Longrightarrow> uniq_key (snd (deleteMany w s))"
  by (simp add: deleteMany_def uniq_key_def distinct_map_filter)

lemma uniq_key_setAsDefault:
  "uniq_key s \<Longrightarrow> uniq_key (snd (setAsDefault db i p v n sc u s))"
  by (simp add: setAsDefault_def Let_def uniq_key_update uniq_key_create split: option.splits)

lemma uniq_key_clearDefault:
  "uniq_key s \<Longrightarrow> uniq_key (snd (clearDefault p n sc u s))"
  by (simp add: clearDefault_def Let_def uniq_key_deleteMany)

lemma uniq_key_apply_operation:
  "uniq_key s \<Longrightarrow> uniq_key (apply_operation db x s)"
proof (cases x)
  case (GetResolvedDefault p n u)
  assume "uniq_key s"
  then show ?thesis
    using GetResolvedDefault by (simp add: getResolvedDefault_find split: option.splits)
next
  case (SetAsDefault i p v n sc u)
  assume "uniq_key s"
  then show ?thesis using SetAsDefault by (simp add: uniq_key_setAsDefault)
next
  case (ClearDefault p n sc u)
  assume "uniq_key s"
  then show ?thesis using ClearDefault by (simp add: uniq_key_clearDefault)
next
  case (IsViewDefault v)
  assume "uniq_key s"
  then show ?thesis using IsViewDefault by (simp add: isViewDefault_def Let_def)
next
  case (CleanupOrphanedDefaults v)
  assume "uniq_key s"
  then show ?thesis
    using CleanupOrphanedDefaults by (simp add: cleanupOrphanedDefaults_def uniq_key_deleteMany)
qed

lemma uniq_key_run: "uniq_key s \<Longrightarrow> uniq_key (run db xs s)"
  by (induction xs arbitrary: s) (simp_all add: uniq_key_apply_operation)

section \<open>Resolution priority\<close>

text \<open>
  C1, as amended. For every table and every \<open>projectId\<close>, \<open>viewName\<close> and optional
  \<open>userId\<close>: when a non-empty \<open>userId\<close> is supplied and a row with that project, view
  name and user id exists, \<open>getResolvedDefault\<close> returns the view id of that row with
  scope \<open>"user"\<close>; otherwise (no \<open>userId\<close>, an empty one, or no such row) it returns the
  view id of the row with that project, view name and null user id with scope
  \<open>"project"\<close> when one exists; otherwise it returns absent. The row is the one a
  lookup by key finds, which under the unique index is the only row with that key
  (last but one conjunct). The result is a single optional object, so the two scopes are
  never combined, and the table is not changed.
\<close>

theorem getResolvedDefault_priority:
  "(truthy u \<and> find (where_key p n u) s = Some r
      \<longrightarrow> fst (getResolvedDefault p n u s)
            = Some \<lparr>resolvedViewId = viewId r, scope = ScopeUser\<rparr>)
   \<and> ((\<not> truthy u \<or> (\<forall>d\<in>set s. \<not> where_key p n u d)) \<and> find (where_key p n None) s = Some r
      \<longrightarrow> fst (getResolvedDefault p n u s)
            = Some \<lparr>resolvedViewId = viewId r, scope = ScopeProject\<rparr>)
   \<and> ((\<not> truthy u \<or> (\<forall>d\<in>set s. \<not> where_key p n u d)) \<and> (\<forall>d\<in>set s. \<not> where_key p n None d)
      \<longrightarrow> fst (getResolvedDefault p n u s) = None)
   \<and> (uniq_key s \<and> r \<in> set s \<and> where_key p n e r \<longrightarrow> find (where_key p n e) s = Some r)
   \<and> snd (getResolvedDefault p n u s) = s"
proof -
  have "uniq_key s \<and> r \<in> set s \<and> where_key p n e r \<longrightarrow> find (where_key p n e) s = Some r"
    by (simp add: find_uniq_key)
  then show ?thesis
    by (auto simp: getResolvedDefault_find find_None_iff_set[symmetric] split: option.splits)
qed

text \<open>
  The scenario of the specification: in project \<open>P\<close>, for the table \<open>traces\<close>, user
  \<open>U1\<close> has the personal default \<open>A\<close> and the project has the default \<open>B\<close>. \<open>U1\<close> is
  served \<open>A\<close> with scope \<open>"user"\<close>, \<open>U2\<close> is served \<open>B\<close> with scope \<open>"project"\<close>, and
  without the project row \<open>U2\<close> is served nothing.
\<close>

theorem getResolvedDefault_priority_witness:
  "fst (getResolvedDefault ''P'' ''traces'' (Some ''U1'')
         [\<lparr>rowId = ''1'', projectId = ''P'', userId = Some ''U1'', viewName = ''traces'', viewId = ''A''\<rparr>,
          \<lparr>rowId = ''2'', projectId = ''P'', userId = None, viewName = ''traces'', viewId = ''B''\<rparr>])
     = Some \<lparr>resolvedViewId = ''A'', scope = ScopeUser\<rparr>
   \<and> fst (getResolvedDefault ''P'' ''traces'' (Some ''U2'')
         [\<lparr>rowId = ''1'', projectId = ''P'', userId = Some ''U1'', viewName = ''traces'', viewId = ''A''\<rparr>,
          \<lparr>rowId = ''2'', projectId = ''P'', userId = None, viewName = ''traces'', viewId = ''B''\<rparr>])
     = Some \<lparr>resolvedViewId = ''B'', scope = ScopeProject\<rparr>
   \<and> fst (getResolvedDefault ''P'' ''traces'' (Some ''U2'')
         [\<lparr>rowId = ''1'', projectId = ''P'', userId = Some ''U1'', viewName = ''traces'', viewId = ''A''\<rparr>])
     = None
   \<and> find (where_key ''P'' ''traces'' None)
         [\<lparr>rowId = ''1'', projectId = ''P'', userId = Some ''U1'', viewName = ''traces'', viewId = ''A''\<rparr>,
          \<lparr>rowId = ''2'', projectId = ''P'', userId = None, viewName = ''traces'', viewId = ''B''\<rparr>]
     = Some \<lparr>rowId = ''2'', projectId = ''P'', userId = None, viewName = ''traces'', viewId = ''B''\<rparr>"
proof -
  let ?a = "\<lparr>rowId = ''1'', projectId = ''P'', userId = Some ''U1'', viewName = ''traces'', viewId = ''A''\<rparr>"
  let ?b = "\<lparr>rowId = ''2'', projectId = ''P'', userId = None, viewName = ''traces'', viewId = ''B''\<rparr>"
  have t1: "truthy (Some ''U1'')" and t2: "truthy (Some ''U2'')"
    by (simp_all add: truthy_def)
  have fa: "find (where_key ''P'' ''traces'' (Some ''U1'')) [?a, ?b] = Some ?a"
    by (simp add: where_key_def)
  have no2: "\<forall>d\<in>set [?a, ?b]. \<not> where_key ''P'' ''traces'' (Some ''U2'') d"
    by (simp add: where_key_def)
  have no2': "\<forall>d\<in>set [?a]. \<not> where_key ''P'' ''traces'' (Some ''U2'') d"
    by (simp add: where_key_def)
  have nop: "\<forall>d\<in>set [?a]. \<not> where_key ''P'' ''traces'' None d"
    by (simp add: where_key_def)
  have fb: "find (where_key ''P'' ''traces'' None) [?a, ?b] = Some ?b"
    by (simp add: where_key_def)
  have uk: "uniq_key [?a, ?b]" and mem: "?b \<in> set [?a, ?b]"
    and wb: "where_key ''P'' ''traces'' None ?b"
    by (simp_all add: uniq_key_def key_of_def where_key_def)
  from getResolvedDefault_priority
         [where u = "Some ''U1''" and p = "''P''" and n = "''traces''" and s = "[?a, ?b]"
            and r = ?a and e = None] t1 fa
  have c1: "fst (getResolvedDefault ''P'' ''traces'' (Some ''U1'') [?a, ?b])
              = Some \<lparr>resolvedViewId = ''A'', scope = ScopeUser\<rparr>"
    by simp
  from getResolvedDefault_priority
         [where u = "Some ''U2''" and p = "''P''" and n = "''traces''" and s = "[?a, ?b]"
            and r = ?b and e = None] no2 fb uk mem wb
  have c2: "fst (getResolvedDefault ''P'' ''traces'' (Some ''U2'') [?a, ?b])
              = Some \<lparr>resolvedViewId = ''B'', scope = ScopeProject\<rparr>"
    and c4: "find (where_key ''P'' ''traces'' None) [?a, ?b] = Some ?b"
    by simp_all
  from getResolvedDefault_priority
         [where u = "Some ''U2''" and p = "''P''" and n = "''traces''" and s = "[?a]"
            and r = ?a and e = None] no2' nop
  have c3: "fst (getResolvedDefault ''P'' ''traces'' (Some ''U2'') [?a]) = None"
    by simp
  from c1 c2 c3 c4 show ?thesis by (intro conjI)
qed

text \<open>
  C1 as stated fails for the empty user id. A row with user id \<open>""\<close> exists and the
  caller supplies user id \<open>""\<close>; the claim promises the view \<open>A\<close> with scope \<open>"user"\<close>,
  but the resolver tests \<open>if (userId)\<close>, skips the personal lookup and returns absent.
\<close>

theorem getResolvedDefault_empty_userId_counterexample:
  "fst (getResolvedDefault ''P'' ''traces'' (Some '''')
         [\<lparr>rowId = ''1'', projectId = ''P'', userId = Some '''', viewName = ''traces'', viewId = ''A''\<rparr>])
     \<noteq> Some \<lparr>resolvedViewId = ''A'', scope = ScopeUser\<rparr>
   \<and> fst (getResolvedDefault ''P'' ''traces'' (Some '''')
         [\<lparr>rowId = ''1'', projectId = ''P'', userId = Some '''', viewName = ''traces'', viewId = ''A''\<rparr>])
     = None"
  by (simp add: getResolvedDefault_def findMany_def where_resolve_def truthy_def)

section \<open>Idempotent upsert\<close>

text \<open>
  C2. Start from any table that satisfies its unique index, with a request that passes
  the validation (a user-scoped request carries a user id) and that the store accepts:
  the generated id \<open>i1\<close> is one no row has yet, the project and the effective user exist
  in the tables the foreign keys point into, and no text of the request contains U+0000.
  Calling \<open>setAsDefault\<close> twice with the same project, view name, scope, user and view
  id succeeds both times, the second call changes nothing, and exactly one row is left
  for the composite key, holding that view id. A further call with another view id \<open>v'\<close>
  succeeds and overwrites the view id of that same row: the row for the key is the
  former one with only \<open>viewId\<close> replaced, so its id is unchanged, and the table has as
  many rows as before, so no second row is created.
\<close>

theorem setAsDefault_idempotent:
  assumes "uniq_key s"
    and "sc = ScopeUser \<longrightarrow> truthy u"
    and "i1 \<notin> set (map rowId s)"
    and "row_text_ok \<lparr>rowId = i1, projectId = p, userId = userIdToUse sc u,
                       viewName = n, viewId = v\<rparr>"
    and "fk_ok db \<lparr>rowId = i1, projectId = p, userId = userIdToUse sc u,
                    viewName = n, viewId = v\<rparr>"
    and "text_ok v'"
  shows "\<exists>s1 row. setAsDefault db i1 p v n sc u s = (Inr (), s1)
           \<and> setAsDefault db i2 p v n sc u s1 = (Inr (), s1)
           \<and> filter (where_key p n (userIdToUse sc u)) s1 = [row]
           \<and> viewId row = v
           \<and> (\<exists>s3. setAsDefault db i3 p v' n sc u s1 = (Inr (), s3)
                 \<and> filter (where_key p n (userIdToUse sc u)) s3 = [row\<lparr>viewId := v'\<rparr>]
                 \<and> rowId (row\<lparr>viewId := v'\<rparr>) = rowId row
                 \<and> length s3 = length s1)"
proof -
  from setAsDefault_first [OF assms(1-5)]
  obtain s1 row where
    first: "setAsDefault db i1 p v n sc u s = (Inr (), s1)" and
    u1: "uniq_key s1" and
    one: "filter (where_key p n (userIdToUse sc u)) s1 = [row]" and
    vr: "viewId row = v" and
    same: "\<forall>r\<in>set s1. rowId r = rowId row \<longrightarrow> viewId r = v"
    by blast
  have "map (\<lambda>r. if rowId r = rowId row then r\<lparr>viewId := v\<rparr> else r) s1 = s1"
    using same by (intro map_idI) auto
  with setAsDefault_again [OF u1 assms(2) one, where db = db and i = i2 and v = v]
  have second: "setAsDefault db i2 p v n sc u s1 = (Inr (), s1)" by simp
  let ?s3 = "map (\<lambda>r. if rowId r = rowId row then r\<lparr>viewId := v'\<rparr> else r) s1"
  from setAsDefault_again [OF u1 assms(2) one, where db = db and i = i3 and v = v']
  have third: "setAsDefault db i3 p v' n sc u s1 = (Inr (), ?s3)
     \<and> filter (where_key p n (userIdToUse sc u)) ?s3 = [row\<lparr>viewId := v'\<rparr>]" .
  then have rest: "\<exists>s3. setAsDefault db i3 p v' n sc u s1 = (Inr (), s3)
                 \<and> filter (where_key p n (userIdToUse sc u)) s3 = [row\<lparr>viewId := v'\<rparr>]
                 \<and> rowId (row\<lparr>viewId := v'\<rparr>) = rowId row
                 \<and> length s3 = length s1"
    by (intro exI [of _ ?s3]) simp
  show ?thesis
    by (rule exI [of _ s1], rule exI [of _ row], intro conjI) (rule first second one vr rest)+
qed

text \<open>
  Project \<open>P\<close> and user \<open>U1\<close> exist. \<open>U1\<close> sets the personal default \<open>A\<close> twice and then
  \<open>B\<close>, in a table that already holds the project default.
\<close>

theorem setAsDefault_idempotent_witness:
  "\<exists>s1 row.
      setAsDefault \<lparr>projects = [''P''], users = [''U1'']\<rparr>
          ''2'' ''P'' ''A'' ''traces'' ScopeUser (Some ''U1'')
        [\<lparr>rowId = ''1'', projectId = ''P'', userId = None, viewName = ''traces'', viewId = ''B''\<rparr>]
        = (Inr (), s1)
      \<and> setAsDefault \<lparr>projects = [''P''], users = [''U1'']\<rparr>
          ''3'' ''P'' ''A'' ''traces'' ScopeUser (Some ''U1'') s1 = (Inr (), s1)
      \<and> filter (where_key ''P'' ''traces'' (userIdToUse ScopeUser (Some ''U1''))) s1 = [row]
      \<and> viewId row = ''A''
      \<and> (\<exists>s3. setAsDefault \<lparr>projects = [''P''], users = [''U1'']\<rparr>
                 ''4'' ''P'' ''B'' ''traces'' ScopeUser (Some ''U1'') s1 = (Inr (), s3)
            \<and> filter (where_key ''P'' ''traces'' (userIdToUse ScopeUser (Some ''U1''))) s3
                = [row\<lparr>viewId := ''B''\<rparr>]
            \<and> rowId (row\<lparr>viewId := ''B''\<rparr>) = rowId row
            \<and> length s3 = length s1)"
proof -
  let ?s = "[\<lparr>rowId = ''1'', projectId = ''P'', userId = None, viewName = ''traces'', viewId = ''B''\<rparr>]"
  let ?db = "\<lparr>projects = [''P''], users = [''U1'']\<rparr>"
  let ?row = "\<lparr>rowId = ''2'', projectId = ''P'', userId = userIdToUse ScopeUser (Some ''U1''),
               viewName = ''traces'', viewId = ''A''\<rparr>"
  have h1: "uniq_key ?s" by (simp add: uniq_key_def)
  have h2: "ScopeUser = ScopeUser \<longrightarrow> truthy (Some ''U1'')" by (simp add: truthy_def)
  have h3: "''2'' \<notin> set (map rowId ?s)" by simp
  have h4: "row_text_ok ?row" by (simp add: row_text_ok_def text_ok_def userIdToUse_def)
  have h5: "fk_ok ?db ?row" by (simp add: fk_ok_def userIdToUse_def)
  have h6: "text_ok ''B''" by (simp add: text_ok_def)
  show ?thesis by (rule setAsDefault_idempotent [OF h1 h2 h3 h4 h5 h6])
qed

section \<open>The uniqueness invariant\<close>

text \<open>
  C3. At most one row per (\<open>projectId\<close>, \<open>userId\<close>, \<open>viewName\<close>), a null \<open>userId\<close> being
  one value like any other: the invariant holds in every table reached from a table
  that satisfies it, and so from the empty table, by any sequence of the five operations
  with any arguments.
\<close>

theorem uniqueness_invariant:
  "(uniq_key s \<longrightarrow> uniq_key (run db xs s)) \<and> uniq_key (run db xs [])"
proof
  show "uniq_key s \<longrightarrow> uniq_key (run db xs s)" by (simp add: uniq_key_run)
  have "uniq_key []" by (simp add: uniq_key_def)
  then show "uniq_key (run db xs [])" by (rule uniq_key_run)
qed

text \<open>
  From a table with the project default: the project default is set again, a personal
  default is set, resolved, inspected, cleared, and the view is cleaned up.
\<close>

theorem uniqueness_invariant_witness:
  "uniq_key [\<lparr>rowId = ''1'', projectId = ''P'', userId = None, viewName = ''traces'', viewId = ''B''\<rparr>]
   \<and> uniq_key
       (run \<lparr>projects = [''P''], users = [''U1'']\<rparr>
            [SetAsDefault ''2'' ''P'' ''A'' ''traces'' ScopeProject None,
             SetAsDefault ''3'' ''P'' ''A'' ''traces'' ScopeUser (Some ''U1''),
             GetResolvedDefault ''P'' ''traces'' (Some ''U1''),
             IsViewDefault ''A'',
             ClearDefault ''P'' ''traces'' ScopeUser (Some ''U1''),
             CleanupOrphanedDefaults ''A'']
          [\<lparr>rowId = ''1'', projectId = ''P'', userId = None, viewName = ''traces'', viewId = ''B''\<rparr>])"
proof -
  let ?s = "[\<lparr>rowId = ''1'', projectId = ''P'', userId = None, viewName = ''traces'', viewId = ''B''\<rparr>]"
  have h: "uniq_key ?s" by (simp add: uniq_key_def)
  from uniqueness_invariant
         [where db = "\<lparr>projects = [''P''], users = [''U1'']\<rparr>" and s = ?s
            and xs = "[SetAsDefault ''2'' ''P'' ''A'' ''traces'' ScopeProject None,
                       SetAsDefault ''3'' ''P'' ''A'' ''traces'' ScopeUser (Some ''U1''),
                       GetResolvedDefault ''P'' ''traces'' (Some ''U1''),
                       IsViewDefault ''A'',
                       ClearDefault ''P'' ''traces'' ScopeUser (Some ''U1''),
                       CleanupOrphanedDefaults ''A'']"] h
  have "uniq_key
       (run \<lparr>projects = [''P''], users = [''U1'']\<rparr>
            [SetAsDefault ''2'' ''P'' ''A'' ''traces'' ScopeProject None,
             SetAsDefault ''3'' ''P'' ''A'' ''traces'' ScopeUser (Some ''U1''),
             GetResolvedDefault ''P'' ''traces'' (Some ''U1''),
             IsViewDefault ''A'',
             ClearDefault ''P'' ''traces'' ScopeUser (Some ''U1''),
             CleanupOrphanedDefaults ''A''] ?s)"
    by blast
  with h show ?thesis by (intro conjI)
qed

section \<open>Validation of user-scoped requests\<close>

text \<open>
  C4. With scope \<open>"user"\<close> and no \<open>userId\<close>, \<open>setAsDefault\<close> and \<open>clearDefault\<close> both
  throw their validation error, and the table is left exactly as it was; in particular
  \<open>setAsDefault\<close> creates no row.
\<close>

theorem user_scope_without_userId_fails:
  "setAsDefault db newId p v n ScopeUser None s
     = (Inl (Error ''userId is required for user-level defaults''), s)
   \<and> clearDefault p n ScopeUser None s
     = (Inl (Error ''userId is required for clearing user-level defaults''), s)"
  by (simp add: setAsDefault_def clearDefault_def truthy_def)

section \<open>The effective user of a request\<close>

text \<open>
  C5. With scope \<open>"project"\<close> the effective user is null whatever \<open>userId\<close> is supplied:
  \<open>setAsDefault\<close> and \<open>clearDefault\<close> do exactly what they do without a \<open>userId\<close>, and
  \<open>clearDefault\<close> deletes the rows of the key with the null user. With scope \<open>"user"\<close>
  the effective user is the supplied \<open>userId\<close>: \<open>clearDefault\<close> deletes the rows of the
  key with that user. A successful \<open>setAsDefault\<close> leaves a row with the key of the
  effective user holding the view id, and the keys of the table are as before, or as
  before with that one key added.
\<close>

theorem effective_user_of_scope:
  "userIdToUse ScopeProject u = None
   \<and> userIdToUse ScopeUser u = u
   \<and> setAsDefault db i p v n ScopeProject u s = setAsDefault db i p v n ScopeProject None s
   \<and> clearDefault p n ScopeProject u s = clearDefault p n ScopeProject None s
   \<and> clearDefault p n ScopeProject u s = (Inr (), filter (\<lambda>r. key_of r \<noteq> (p, None, n)) s)
   \<and> (truthy u \<longrightarrow>
        clearDefault p n ScopeUser u s = (Inr (), filter (\<lambda>r. key_of r \<noteq> (p, u, n)) s))
   \<and> (fst (setAsDefault db i p v n sc u s) = Inr () \<longrightarrow>
        (\<exists>row\<in>set (snd (setAsDefault db i p v n sc u s)).
            key_of row = (p, userIdToUse sc u, n) \<and> viewId row = v)
        \<and> (map key_of (snd (setAsDefault db i p v n sc u s)) = map key_of s
            \<or> map key_of (snd (setAsDefault db i p v n sc u s))
                = map key_of s @ [(p, userIdToUse sc u, n)]))"
proof (intro conjI)
  show "userIdToUse ScopeProject u = None" by (simp add: userIdToUse_def)
  show "userIdToUse ScopeUser u = u" by (simp add: userIdToUse_def)
  show "setAsDefault db i p v n ScopeProject u s = setAsDefault db i p v n ScopeProject None s"
    by (simp add: setAsDefault_def userIdToUse_def)
  show "clearDefault p n ScopeProject u s = clearDefault p n ScopeProject None s"
    by (simp add: clearDefault_def userIdToUse_def)
  show "clearDefault p n ScopeProject u s = (Inr (), filter (\<lambda>r. key_of r \<noteq> (p, None, n)) s)"
    by (simp add: clearDefault_def userIdToUse_def deleteMany_def where_key_iff)
  show "truthy u \<longrightarrow>
        clearDefault p n ScopeUser u s = (Inr (), filter (\<lambda>r. key_of r \<noteq> (p, u, n)) s)"
    by (simp add: clearDefault_def userIdToUse_def deleteMany_def where_key_iff)
  show "fst (setAsDefault db i p v n sc u s) = Inr () \<longrightarrow>
        (\<exists>row\<in>set (snd (setAsDefault db i p v n sc u s)).
            key_of row = (p, userIdToUse sc u, n) \<and> viewId row = v)
        \<and> (map key_of (snd (setAsDefault db i p v n sc u s)) = map key_of s
            \<or> map key_of (snd (setAsDefault db i p v n sc u s))
                = map key_of s @ [(p, userIdToUse sc u, n)])"
    by (rule impI) (rule setAsDefault_target)
qed

text \<open>
  A project-scoped \<open>setAsDefault\<close> that carries the user id \<open>U1\<close> succeeds on the empty
  table and leaves a row with the null user; a user-scoped \<open>clearDefault\<close> of \<open>U1\<close>
  removes the row of \<open>U1\<close> and keeps the project row.
\<close>

theorem effective_user_of_scope_witness:
  "fst (setAsDefault \<lparr>projects = [''P''], users = [''U1'']\<rparr>
          ''1'' ''P'' ''A'' ''traces'' ScopeProject (Some ''U1'') []) = Inr ()
   \<and> userIdToUse ScopeProject (Some ''U1'') = None
   \<and> (\<exists>row\<in>set (snd (setAsDefault \<lparr>projects = [''P''], users = [''U1'']\<rparr>
          ''1'' ''P'' ''A'' ''traces'' ScopeProject (Some ''U1'') [])).
         key_of row = (''P'', userIdToUse ScopeProject (Some ''U1''), ''traces'')
         \<and> viewId row = ''A'')
   \<and> truthy (Some ''U1'')
   \<and> clearDefault ''P'' ''traces'' ScopeUser (Some ''U1'')
         [\<lparr>rowId = ''1'', projectId = ''P'', userId = Some ''U1'', viewName = ''traces'', viewId = ''A''\<rparr>,
          \<lparr>rowId = ''2'', projectId = ''P'', userId = None, viewName = ''traces'', viewId = ''B''\<rparr>]
       = (Inr (),
          [\<lparr>rowId = ''2'', projectId = ''P'', userId = None, viewName = ''traces'', viewId = ''B''\<rparr>])"
proof -
  let ?a = "\<lparr>rowId = ''1'', projectId = ''P'', userId = Some ''U1'', viewName = ''traces'', viewId = ''A''\<rparr>"
  let ?b = "\<lparr>rowId = ''2'', projectId = ''P'', userId = None, viewName = ''traces'', viewId = ''B''\<rparr>"
  have ok: "fst (setAsDefault \<lparr>projects = [''P''], users = [''U1'']\<rparr>
          ''1'' ''P'' ''A'' ''traces'' ScopeProject (Some ''U1'') []) = Inr ()"
    by (simp add: setAsDefault_def userIdToUse_def findFirst_def create_def
        row_text_ok_def text_ok_def key_of_def)
  have t: "truthy (Some ''U1'')" by (simp add: truthy_def)
  have f: "filter (\<lambda>r. key_of r \<noteq> (''P'', Some ''U1'', ''traces'')) [?a, ?b] = [?b]"
    by (simp add: key_of_def)
  from effective_user_of_scope
         [where db = "\<lparr>projects = [''P''], users = [''U1'']\<rparr>"
            and i = "''1''" and p = "''P''" and v = "''A''" and n = "''traces''"
            and sc = ScopeProject and u = "Some ''U1''" and s = "[]"] ok
  have c0: "userIdToUse ScopeProject (Some ''U1'') = None"
    and c1: "\<exists>row\<in>set (snd (setAsDefault \<lparr>projects = [''P''], users = [''U1'']\<rparr>
          ''1'' ''P'' ''A'' ''traces'' ScopeProject (Some ''U1'') [])).
              key_of row = (''P'', userIdToUse ScopeProject (Some ''U1''), ''traces'')
              \<and> viewId row = ''A''"
    by blast+
  from effective_user_of_scope
         [where db = "\<lparr>projects = [''P''], users = [''U1'']\<rparr>"
            and i = "''1''" and p = "''P''" and v = "''A''" and n = "''traces''"
            and sc = ScopeUser and u = "Some ''U1''" and s = "[?a, ?b]"] t
  have "clearDefault ''P'' ''traces'' ScopeUser (Some ''U1'') [?a, ?b]
          = (Inr (), filter (\<lambda>r. key_of r \<noteq> (''P'', Some ''U1'', ''traces'')) [?a, ?b])"
    by blast
  with f have c2: "clearDefault ''P'' ''traces'' ScopeUser (Some ''U1'') [?a, ?b] = (Inr (), [?b])"
    by simp
  from ok c0 c1 t c2 show ?thesis by (intro conjI)
qed

section \<open>Cleaning up the defaults of a deleted view\<close>

text \<open>
  C6. \<open>cleanupOrphanedDefaults\<close> always succeeds, also when no row matches. It removes
  the rows whose view id is the given one, in every project and for every user, and
  keeps all other rows as they were and in their order. Right afterwards \<open>isViewDefault\<close>
  of that view returns \<open>{isUserDefault: false, isProjectDefault: false, affectedCount: 0}\<close>.
\<close>

theorem cleanupOrphanedDefaults_removes_all:
  "cleanupOrphanedDefaults v s = (Inr (), filter (\<lambda>r. viewId r \<noteq> v) s)
   \<and> set (snd (cleanupOrphanedDefaults v s)) = set s - {r. viewId r = v}
   \<and> fst (isViewDefault v (snd (cleanupOrphanedDefaults v s)))
       = \<lparr>isUserDefault = False, isProjectDefault = False, affectedCount = 0\<rparr>"
  by (auto simp: cleanupOrphanedDefaults_def deleteMany_def isViewDefault_def findMany_def
      list_ex_iff filter_empty_conv)

section \<open>Which defaults point at a view\<close>

text \<open>
  C7. \<open>isViewDefault\<close> of a view: \<open>isUserDefault\<close> holds exactly when some row with that
  view id has a user id, \<open>isProjectDefault\<close> exactly when some row with that view id has
  the null user id, and \<open>affectedCount\<close> is the number of rows with that view id. The
  table is unchanged. The count can exceed 2: a table that satisfies both constraints
  has three rows for the view.
\<close>

theorem isViewDefault_result:
  "isUserDefault (fst (isViewDefault v s)) = (\<exists>r\<in>set s. viewId r = v \<and> userId r \<noteq> None)
   \<and> isProjectDefault (fst (isViewDefault v s)) = (\<exists>r\<in>set s. viewId r = v \<and> userId r = None)
   \<and> affectedCount (fst (isViewDefault v s)) = length (filter (\<lambda>r. viewId r = v) s)
   \<and> snd (isViewDefault v s) = s
   \<and> (\<exists>t. uniq_key t \<and> uniq_id t \<and> affectedCount (fst (isViewDefault v t)) = 3)"
proof -
  let ?t = "[\<lparr>rowId = ''1'', projectId = ''P'', userId = Some ''U1'', viewName = ''traces'', viewId = v\<rparr>,
             \<lparr>rowId = ''2'', projectId = ''P'', userId = Some ''U2'', viewName = ''traces'', viewId = v\<rparr>,
             \<lparr>rowId = ''3'', projectId = ''P'', userId = None, viewName = ''traces'', viewId = v\<rparr>]"
  have "uniq_key ?t \<and> uniq_id ?t \<and> affectedCount (fst (isViewDefault v ?t)) = 3"
    by (simp add: uniq_key_def uniq_id_def key_of_def isViewDefault_def findMany_def)
  then have ex: "\<exists>t. uniq_key t \<and> uniq_id t \<and> affectedCount (fst (isViewDefault v t)) = 3"
    by blast
  have rest: "isUserDefault (fst (isViewDefault v s)) = (\<exists>r\<in>set s. viewId r = v \<and> userId r \<noteq> None)
   \<and> isProjectDefault (fst (isViewDefault v s)) = (\<exists>r\<in>set s. viewId r = v \<and> userId r = None)
   \<and> affectedCount (fst (isViewDefault v s)) = length (filter (\<lambda>r. viewId r = v) s)
   \<and> snd (isViewDefault v s) = s"
    by (auto simp: isViewDefault_def findMany_def list_ex_iff)
  from rest ex show ?thesis by blast
qed

section \<open>Clearing a default\<close>

text \<open>
  C8. For a request that passes the validation, \<open>clearDefault\<close> succeeds and the table
  afterwards is the table without the rows of the key (\<open>projectId\<close>, effective user,
  \<open>viewName\<close>). When no row has that key the call succeeds and the table is as before.
  Every row of another key is still there. Under the unique index at most one row is
  removed.
\<close>

theorem clearDefault_deletes_key:
  assumes "sc = ScopeUser \<longrightarrow> truthy u"
  shows "clearDefault p n sc u s
           = (Inr (), filter (\<lambda>r. key_of r \<noteq> (p, userIdToUse sc u, n)) s)
         \<and> ((\<forall>r\<in>set s. key_of r \<noteq> (p, userIdToUse sc u, n))
              \<longrightarrow> clearDefault p n sc u s = (Inr (), s))
         \<and> (\<forall>r\<in>set s. key_of r \<noteq> (p, userIdToUse sc u, n)
              \<longrightarrow> r \<in> set (snd (clearDefault p n sc u s)))
         \<and> (uniq_key s \<longrightarrow> length s \<le> Suc (length (snd (clearDefault p n sc u s))))"
proof -
  let ?k = "(p, userIdToUse sc u, n)"
  have eq: "clearDefault p n sc u s = (Inr (), filter (\<lambda>r. key_of r \<noteq> ?k) s)"
    using assms by (auto simp: clearDefault_def deleteMany_def where_key_iff Let_def)
  have noop: "(\<forall>r\<in>set s. key_of r \<noteq> ?k) \<longrightarrow> filter (\<lambda>r. key_of r \<noteq> ?k) s = s"
    by (simp add: filter_id_conv)
  have len: "uniq_key s \<longrightarrow> length s \<le> Suc (length (filter (\<lambda>r. key_of r \<noteq> ?k) s))"
  proof
    assume "uniq_key s"
    from length_filter_uniq_key [OF this, of ?k]
    have "length (filter (\<lambda>r. key_of r = ?k) s) \<le> 1" .
    moreover have "length s = length (filter (\<lambda>r. key_of r = ?k) s)
                     + length (filter (\<lambda>r. \<not> key_of r = ?k) s)"
      by (rule sum_length_filter_compl [symmetric])
    ultimately show "length s \<le> Suc (length (filter (\<lambda>r. key_of r \<noteq> ?k) s))" by simp
  qed
  from eq noop len show ?thesis by simp
qed

text \<open>
  Clearing the project default of a table that has only the personal default of \<open>U1\<close>
  succeeds and changes nothing; clearing the personal default of \<open>U1\<close> empties it.
\<close>

theorem clearDefault_deletes_key_witness:
  "clearDefault ''P'' ''traces'' ScopeProject None
      [\<lparr>rowId = ''1'', projectId = ''P'', userId = Some ''U1'', viewName = ''traces'', viewId = ''A''\<rparr>]
     = (Inr (),
        [\<lparr>rowId = ''1'', projectId = ''P'', userId = Some ''U1'', viewName = ''traces'', viewId = ''A''\<rparr>])
   \<and> clearDefault ''P'' ''traces'' ScopeUser (Some ''U1'')
      [\<lparr>rowId = ''1'', projectId = ''P'', userId = Some ''U1'', viewName = ''traces'', viewId = ''A''\<rparr>]
     = (Inr (), [])"
proof -
  let ?a = "\<lparr>rowId = ''1'', projectId = ''P'', userId = Some ''U1'', viewName = ''traces'', viewId = ''A''\<rparr>"
  have h1: "ScopeProject = ScopeUser \<longrightarrow> truthy None" by simp
  have h2: "ScopeUser = ScopeUser \<longrightarrow> truthy (Some ''U1'')" by (simp add: truthy_def)
  have no: "\<forall>r\<in>set [?a]. key_of r \<noteq> (''P'', userIdToUse ScopeProject None, ''traces'')"
    by (simp add: key_of_def userIdToUse_def)
  have f: "filter (\<lambda>r. key_of r \<noteq> (''P'', userIdToUse ScopeUser (Some ''U1''), ''traces'')) [?a] = []"
    by (simp add: key_of_def userIdToUse_def)
  from clearDefault_deletes_key [OF h1, where p = "''P''" and n = "''traces''" and s = "[?a]"] no
  have c1: "clearDefault ''P'' ''traces'' ScopeProject None [?a] = (Inr (), [?a])"
    by blast
  from clearDefault_deletes_key [OF h2, where p = "''P''" and n = "''traces''" and s = "[?a]"]
  have "clearDefault ''P'' ''traces'' ScopeUser (Some ''U1'') [?a]
          = (Inr (), filter (\<lambda>r. key_of r \<noteq> (''P'', userIdToUse ScopeUser (Some ''U1''), ''traces'')) [?a])"
    by blast
  with f have c2: "clearDefault ''P'' ''traces'' ScopeUser (Some ''U1'') [?a] = (Inr (), [])"
    by simp
  from c1 c2 show ?thesis by (intro conjI)
qed

section \<open>Isolation between users\<close>

text \<open>
  C9. If two tables differ only in rows whose user id is non-null and is not the user
  id the caller supplied, \<open>getResolvedDefault\<close> returns the same result in both. What it
  returns is the view id of a row of the requested project and view name that is either
  the caller's own (scope \<open>"user"\<close>) or project-scoped (scope \<open>"project"\<close>), never a row
  of another user. Without a \<open>userId\<close> the result, if any, has scope \<open>"project"\<close> and
  comes from a row with the null user id.
\<close>

theorem getResolvedDefault_user_isolation:
  "(visible_to u s = visible_to u s'
      \<longrightarrow> fst (getResolvedDefault p n u s) = fst (getResolvedDefault p n u s'))
   \<and> (fst (getResolvedDefault p n u s) = Some res
      \<longrightarrow> (\<exists>r\<in>set s. projectId r = p \<and> viewName r = n \<and> viewId r = resolvedViewId res
             \<and> ((scope res = ScopeUser \<and> userId r = u \<and> u \<noteq> None)
               \<or> (scope res = ScopeProject \<and> userId r = None))))
   \<and> (fst (getResolvedDefault p n None s) = Some res
      \<longrightarrow> scope res = ScopeProject
          \<and> (\<exists>r\<in>set s. projectId r = p \<and> viewName r = n \<and> userId r = None
                \<and> viewId r = resolvedViewId res))"
proof (intro conjI impI)
  assume "visible_to u s = visible_to u s'"
  then show "fst (getResolvedDefault p n u s) = fst (getResolvedDefault p n u s')"
    using getResolvedDefault_visible [of p n u s] getResolvedDefault_visible [of p n u s']
    by simp
next
  assume "fst (getResolvedDefault p n u s) = Some res"
  from getResolvedDefault_source [OF this]
  show "\<exists>r\<in>set s. projectId r = p \<and> viewName r = n \<and> viewId r = resolvedViewId res
             \<and> ((scope res = ScopeUser \<and> userId r = u \<and> u \<noteq> None)
               \<or> (scope res = ScopeProject \<and> userId r = None))"
    by (fastforce simp: truthy_def split: option.splits)
next
  assume a: "fst (getResolvedDefault p n None s) = Some res"
  from getResolvedDefault_source [OF a]
  show "scope res = ScopeProject" by (auto simp: truthy_def)
next
  assume a: "fst (getResolvedDefault p n None s) = Some res"
  from getResolvedDefault_source [OF a]
  show "\<exists>r\<in>set s. projectId r = p \<and> viewName r = n \<and> userId r = None
                \<and> viewId r = resolvedViewId res"
    by (auto simp: truthy_def)
qed

text \<open>
  The scenario of the specification: \<open>U1\<close> has the personal default \<open>A\<close> and there is no
  project default. For \<open>U2\<close> the table looks like the empty one, and \<open>U2\<close> is served what
  the empty table serves. With the project default \<open>B\<close> added, a caller without user id
  is served \<open>B\<close> with scope \<open>"project"\<close>.
\<close>

theorem getResolvedDefault_user_isolation_witness:
  "visible_to (Some ''U2'')
      [\<lparr>rowId = ''1'', projectId = ''P'', userId = Some ''U1'', viewName = ''traces'', viewId = ''A''\<rparr>]
     = visible_to (Some ''U2'') []
   \<and> fst (getResolvedDefault ''P'' ''traces'' (Some ''U2'')
           [\<lparr>rowId = ''1'', projectId = ''P'', userId = Some ''U1'', viewName = ''traces'', viewId = ''A''\<rparr>])
     = fst (getResolvedDefault ''P'' ''traces'' (Some ''U2'') [])
   \<and> fst (getResolvedDefault ''P'' ''traces'' None
           [\<lparr>rowId = ''1'', projectId = ''P'', userId = Some ''U1'', viewName = ''traces'', viewId = ''A''\<rparr>,
            \<lparr>rowId = ''2'', projectId = ''P'', userId = None, viewName = ''traces'', viewId = ''B''\<rparr>])
     = Some \<lparr>resolvedViewId = ''B'', scope = ScopeProject\<rparr>
   \<and> scope \<lparr>resolvedViewId = ''B'', scope = ScopeProject\<rparr> = ScopeProject
   \<and> (\<exists>r\<in>set [\<lparr>rowId = ''1'', projectId = ''P'', userId = Some ''U1'', viewName = ''traces'', viewId = ''A''\<rparr>,
                  \<lparr>rowId = ''2'', projectId = ''P'', userId = None, viewName = ''traces'', viewId = ''B''\<rparr>].
         projectId r = ''P'' \<and> viewName r = ''traces'' \<and> userId r = None
         \<and> viewId r = resolvedViewId \<lparr>resolvedViewId = ''B'', scope = ScopeProject\<rparr>)"
proof -
  let ?a = "\<lparr>rowId = ''1'', projectId = ''P'', userId = Some ''U1'', viewName = ''traces'', viewId = ''A''\<rparr>"
  let ?b = "\<lparr>rowId = ''2'', projectId = ''P'', userId = None, viewName = ''traces'', viewId = ''B''\<rparr>"
  have h: "visible_to (Some ''U2'') [?a] = visible_to (Some ''U2'') []"
    by (simp add: visible_to_def)
  have g: "fst (getResolvedDefault ''P'' ''traces'' None [?a, ?b])
             = Some \<lparr>resolvedViewId = ''B'', scope = ScopeProject\<rparr>"
    by (simp add: getResolvedDefault_def findMany_def where_resolve_def truthy_def)
  from getResolvedDefault_user_isolation
         [where u = "Some ''U2''" and s = "[?a]" and s' = "[]" and p = "''P''" and n = "''traces''"
            and res = "\<lparr>resolvedViewId = ''B'', scope = ScopeProject\<rparr>"] h
  have c1: "fst (getResolvedDefault ''P'' ''traces'' (Some ''U2'') [?a])
              = fst (getResolvedDefault ''P'' ''traces'' (Some ''U2'') [])"
    by blast
  from getResolvedDefault_user_isolation
         [where u = None and s = "[?a, ?b]" and s' = "[?a, ?b]" and p = "''P''" and n = "''traces''"
            and res = "\<lparr>resolvedViewId = ''B'', scope = ScopeProject\<rparr>"] g
  have c2: "scope \<lparr>resolvedViewId = ''B'', scope = ScopeProject\<rparr> = ScopeProject
     \<and> (\<exists>r\<in>set [?a, ?b].
         projectId r = ''P'' \<and> viewName r = ''traces'' \<and> userId r = None
         \<and> viewId r = resolvedViewId \<lparr>resolvedViewId = ''B'', scope = ScopeProject\<rparr>)"
    by blast
  from h c1 g c2 show ?thesis by (intro conjI) (elim conjE, assumption)+
qed

section \<open>The empty user id\<close>

text \<open>
  C10. The service tests the user id for truthiness, so the empty string counts as no
  user id. For every table, \<open>getResolvedDefault\<close> with user id \<open>""\<close> returns what it
  returns without a user id and never a result of scope \<open>"user"\<close>, also when a row with
  user id \<open>""\<close> exists; \<open>setAsDefault\<close> and \<open>clearDefault\<close> with scope \<open>"user"\<close> and user
  id \<open>""\<close> throw the validation error and leave the table as it was.
\<close>

theorem empty_userId_is_absent:
  "fst (getResolvedDefault p n (Some '''') s) = fst (getResolvedDefault p n None s)
   \<and> map_option scope (fst (getResolvedDefault p n (Some '''') s)) \<noteq> Some ScopeUser
   \<and> setAsDefault db newId p v n ScopeUser (Some '''') s
       = (Inl (Error ''userId is required for user-level defaults''), s)
   \<and> clearDefault p n ScopeUser (Some '''') s
       = (Inl (Error ''userId is required for clearing user-level defaults''), s)"
  by (auto simp: getResolvedDefault_find truthy_def setAsDefault_def clearDefault_def
      split: option.splits)

end
